theory Spec2Isabelle
  imports Complex_Main
begin

section \<open>JavaScript numbers\<close>

text \<open>
  The handlers compute with JavaScript \<open>number\<close>s. A finite value is modelled by an
  exact rational (the rounding of IEEE doubles is outside the model), and the three
  non-finite values are kept apart, so that a division by zero is \<open>NaN\<close> or an
  infinity as in the language, never a rational. Negative zero is identified with zero.
\<close>

datatype number = Num rat | PosInf | NegInf | NaN

text \<open>The relational operators \<open><\<close> and \<open><=\<close>; \<open>a > b\<close> is \<open>js_lt b a\<close>
  and \<open>a >= b\<close> is \<open>js_le b a\<close>. Every comparison with \<open>NaN\<close> is false.\<close>

fun js_lt :: "number \<Rightarrow> number \<Rightarrow> bool" where
  "js_lt (Num a) (Num b) = (a < b)"
| "js_lt NaN _ = False"
| "js_lt _ NaN = False"
| "js_lt PosInf _ = False"
| "js_lt _ PosInf = True"
| "js_lt NegInf NegInf = False"
| "js_lt NegInf _ = True"
| "js_lt _ NegInf = False"

fun js_le :: "number \<Rightarrow> number \<Rightarrow> bool" where
  "js_le (Num a) (Num b) = (a \<le> b)"
| "js_le NaN _ = False"
| "js_le _ NaN = False"
| "js_le _ PosInf = True"
| "js_le NegInf _ = True"
| "js_le PosInf _ = False"
| "js_le _ NegInf = False"

definition js_gt :: "number \<Rightarrow> number \<Rightarrow> bool" where
  "js_gt a b = js_lt b a"

definition js_ge :: "number \<Rightarrow> number \<Rightarrow> bool" where
  "js_ge a b = js_le b a"

fun js_neg :: "number \<Rightarrow> number" where
  "js_neg (Num a) = Num (- a)"
| "js_neg PosInf = NegInf"
| "js_neg NegInf = PosInf"
| "js_neg NaN = NaN"

fun js_add :: "number \<Rightarrow> number \<Rightarrow> number" where
  "js_add (Num a) (Num b) = Num (a + b)"
| "js_add NaN _ = NaN"
| "js_add _ NaN = NaN"
| "js_add PosInf NegInf = NaN"
| "js_add NegInf PosInf = NaN"
| "js_add PosInf _ = PosInf"
| "js_add _ PosInf = PosInf"
| "js_add NegInf _ = NegInf"
| "js_add _ NegInf = NegInf"

definition js_sub :: "number \<Rightarrow> number \<Rightarrow> number" where
  "js_sub a b = js_add a (js_neg b)"

fun js_sign :: "number \<Rightarrow> rat" where
  "js_sign (Num a) = sgn a"
| "js_sign PosInf = 1"
| "js_sign NegInf = - 1"
| "js_sign NaN = 0"

definition signed_infinity :: "rat \<Rightarrow> number" where
  "signed_infinity s = (if s = 0 then NaN else if 0 < s then PosInf else NegInf)"

fun js_mul :: "number \<Rightarrow> number \<Rightarrow> number" where
  "js_mul (Num a) (Num b) = Num (a * b)"
| "js_mul NaN _ = NaN"
| "js_mul _ NaN = NaN"
| "js_mul x y = signed_infinity (js_sign x * js_sign y)"

text \<open>Division: a finite value divided by zero is an infinity of the sign of the
  numerator, and \<open>0 / 0\<close> is \<open>NaN\<close>.\<close>

fun js_div :: "number \<Rightarrow> number \<Rightarrow> number" where
  "js_div (Num a) (Num b) =
     (if b \<noteq> 0 then Num (a / b) else signed_infinity (sgn a))"
| "js_div NaN _ = NaN"
| "js_div _ NaN = NaN"
| "js_div (Num a) _ = Num 0"
| "js_div x (Num b) = signed_infinity (js_sign x * (if b < 0 then - 1 else 1))"
| "js_div _ _ = NaN"

fun Math_abs :: "number \<Rightarrow> number" where
  "Math_abs (Num a) = Num \<bar>a\<bar>"
| "Math_abs PosInf = PosInf"
| "Math_abs NegInf = PosInf"
| "Math_abs NaN = NaN"

fun Math_min :: "number \<Rightarrow> number \<Rightarrow> number" where
  "Math_min NaN _ = NaN"
| "Math_min _ NaN = NaN"
| "Math_min a b = (if js_lt a b then a else b)"

fun Math_max :: "number \<Rightarrow> number \<Rightarrow> number" where
  "Math_max NaN _ = NaN"
| "Math_max _ NaN = NaN"
| "Math_max a b = (if js_lt a b then b else a)"

text \<open>\<open>Math.round\<close> rounds to the nearest integer, a half towards plus infinity.\<close>

fun Math_round :: "number \<Rightarrow> number" where
  "Math_round (Num a) = Num (of_int \<lfloor>a + 1 / 2\<rfloor>)"
| "Math_round x = x"

text \<open>A property read from an object of type \<open>any\<close> is a finite number or is
  missing (\<open>undefined\<close>, here \<open>None\<close>); in arithmetic and comparisons
  \<open>undefined\<close> converts to \<open>NaN\<close>.\<close>

type_synonym field = "rat option"

fun ToNumber :: "field \<Rightarrow> number" where
  "ToNumber None = NaN"
| "ToNumber (Some x) = Num x"

section \<open>Automatic motor control (app/api/motor/auto-control/route.ts)\<close>

text \<open>The row of \<open>sensor_readings\<close> as the handlers read it. Only the properties
  that the two decision procedures destructure are kept.\<close>

record sensorData =
  soil_moisture :: field
  soil_temperature :: field
  air_temperature :: field
  air_humidity :: field
  rainfall :: field

definition determineMotorAction :: "sensorData \<Rightarrow> bool" where
  "determineMotorAction s =
     (if js_gt (ToNumber (rainfall s)) (Num 1) then False
      else if js_lt (ToNumber (soil_moisture s)) (Num 30) then True
      else if js_gt (ToNumber (soil_moisture s)) (Num 60) then False
      else if js_lt (ToNumber (soil_moisture s)) (Num 40)
            \<and> js_gt (ToNumber (air_temperature s)) (Num 30)
            \<and> js_lt (ToNumber (air_humidity s)) (Num 50) then True
      else False)"

text \<open>The reason is a template string; the model keeps which template was chosen and
  the values it prints. \<open>x.toFixed(1)\<close> raises a \<open>TypeError\<close> when \<open>x\<close> is
  \<open>undefined\<close>.\<close>

datatype error = TypeError

datatype reason_text =
    DeactivatedDueToRainfall rat
  | CriticalSoilMoisture rat
  | LowSoilMoisture rat
  | HotAndDry rat rat
  | HighSoilMoisture rat
  | AdequateSoilMoisture rat
  | AutomaticControlBasedOn rat rat
  | MotorVia bool string
  | Supplied string

definition toFixed :: "field \<Rightarrow> error + rat" where
  "toFixed x = (case x of None \<Rightarrow> Inl TypeError | Some v \<Rightarrow> Inr v)"

definition and_then :: "error + 'a \<Rightarrow> ('a \<Rightarrow> error + 'b) \<Rightarrow> error + 'b" where
  "and_then r f = (case r of Inl e \<Rightarrow> Inl e | Inr v \<Rightarrow> f v)"

definition generateAutoControlReason :: "sensorData \<Rightarrow> bool \<Rightarrow> error + reason_text" where
  "generateAutoControlReason s shouldActivate =
     (let generic =
            and_then (toFixed (soil_moisture s)) (\<lambda>m.
            and_then (toFixed (air_temperature s)) (\<lambda>t.
            Inr (AutomaticControlBasedOn m t)))
      in
      if js_gt (ToNumber (rainfall s)) (Num 1) then
        and_then (toFixed (rainfall s)) (\<lambda>r. Inr (DeactivatedDueToRainfall r))
      else if shouldActivate then
        (if js_lt (ToNumber (soil_moisture s)) (Num 20) then
           and_then (toFixed (soil_moisture s)) (\<lambda>m. Inr (CriticalSoilMoisture m))
         else if js_lt (ToNumber (soil_moisture s)) (Num 30) then
           and_then (toFixed (soil_moisture s)) (\<lambda>m. Inr (LowSoilMoisture m))
         else if js_gt (ToNumber (air_temperature s)) (Num 30)
               \<and> js_lt (ToNumber (air_humidity s)) (Num 50) then
           and_then (toFixed (air_temperature s)) (\<lambda>t.
           and_then (toFixed (air_humidity s)) (\<lambda>h.
           Inr (HotAndDry t h)))
         else generic)
      else
        (if js_gt (ToNumber (soil_moisture s)) (Num 70) then
           and_then (toFixed (soil_moisture s)) (\<lambda>m. Inr (HighSoilMoisture m))
         else if js_gt (ToNumber (soil_moisture s)) (Num 60) then
           and_then (toFixed (soil_moisture s)) (\<lambda>m. Inr (AdequateSoilMoisture m))
         else generic))"

text \<open>The two tables. A table is the list of its rows, the latest first: \<open>order(...,
  ascending: false).limit(1).single()\<close> yields the head and an error on an empty
  table, and an insert puts the new row in front. The storage service is taken to be
  available, so an insert of a well-formed row succeeds.\<close>

record motor_row =
  status :: bool
  mode :: string
  reason :: "reason_text option"
  changed_by :: string

record db =
  sensor_readings :: "sensorData list"
  motor_control :: "motor_row list"

datatype query_error = NoRows

definition latest :: "'a list \<Rightarrow> query_error + 'a" where
  "latest rows = (case rows of [] \<Rightarrow> Inl NoRows | r # _ \<Rightarrow> Inr r)"

definition insert_motor_row :: "motor_row \<Rightarrow> db \<Rightarrow> query_error + motor_row \<times> db" where
  "insert_motor_row r d = Inr (r, d\<lparr>motor_control := r # motor_control d\<rparr>)"

text \<open>The JSON answers of the auto-control handler; an answer with status 500 is
  \<open>ServerError\<close> with its message. The echo of the sensor values is left out.\<close>

datatype response =
    ServerError string
  | ManualModeDisabled bool
  | Switched bool reason_text motor_row
  | NoActionNeeded bool

definition auto_control_POST :: "db \<Rightarrow> response \<times> db" where
  "auto_control_POST d =
     (case latest (sensor_readings d) of
        Inl sensorError \<Rightarrow> (ServerError ''Failed to fetch sensor data'', d)
      | Inr sensorData \<Rightarrow>
     (case latest (motor_control d) of
        Inl motorError \<Rightarrow> (ServerError ''Failed to fetch motor status'', d)
      | Inr motorData \<Rightarrow>
        if mode motorData \<noteq> ''automatic'' then (ManualModeDisabled (status motorData), d)
        else
          let shouldActivate = determineMotorAction sensorData;
              currentStatus = status motorData
          in if shouldActivate \<noteq> currentStatus then
               (case generateAutoControlReason sensorData shouldActivate of
                  Inl thrown \<Rightarrow> (ServerError ''Internal server error'', d)
                | Inr reasonText \<Rightarrow>
                  (case insert_motor_row
                          \<lparr>status = shouldActivate, mode = ''automatic'',
                           reason = Some reasonText, changed_by = ''system''\<rparr> d of
                     Inl updateError \<Rightarrow> (ServerError ''Failed to update motor status'', d)
                   | Inr (newMotorData, d') \<Rightarrow> (Switched shouldActivate reasonText newMotorData, d')))
             else (NoActionNeeded currentStatus, d)))"

section \<open>Manual motor control (app/api/motor/route.ts)\<close>

text \<open>The body of the request: \<open>req_status\<close> is \<open>None\<close> when the property is not a
  boolean, \<open>req_reason\<close> is \<open>None\<close> when it is absent. An empty reason is falsy, so
  \<open>reason || ...\<close> replaces it by the default text as well. The messages of
  the answers are written without their apostrophes.\<close>

record request =
  req_status :: "bool option"
  req_mode :: string
  req_reason :: "string option"
  req_changed_by :: string

datatype motor_response =
    BadRequest string
  | MotorServerError string
  | Stored motor_row

definition motor_POST :: "request \<Rightarrow> db \<Rightarrow> motor_response \<times> db" where
  "motor_POST q d =
     (case req_status q of
        None \<Rightarrow> (BadRequest ''Status must be boolean'', d)
      | Some st \<Rightarrow>
        if req_mode q \<notin> set [''automatic'', ''manual''] then
          (BadRequest ''Mode must be automatic or manual'', d)
        else if req_changed_by q \<notin> set [''system'', ''user''] then
          (BadRequest ''Changed_by must be system or user'', d)
        else
          (case insert_motor_row
                  \<lparr>status = st, mode = req_mode q,
                   reason = Some (case req_reason q of
                                    None \<Rightarrow> MotorVia st (req_mode q)
                                  | Some txt \<Rightarrow> if txt = [] then MotorVia st (req_mode q)
                                                else Supplied txt),
                   changed_by = req_changed_by q\<rparr> d of
             Inl err \<Rightarrow> (MotorServerError ''Failed to update motor status'', d)
           | Inr (data, d') \<Rightarrow> (Stored data, d')))"

text \<open>The two handlers that write \<open>motor_control\<close>, as the events of the system.\<close>

datatype event = AutoControlCheck | MotorRequest request

fun handle :: "event \<Rightarrow> db \<Rightarrow> db" where
  "handle AutoControlCheck d = snd (auto_control_POST d)"
| "handle (MotorRequest q) d = snd (motor_POST q d)"

section \<open>Crop suitability (the crop recommendation route)\<close>

text \<open>The argument of \<open>calculateCropSuitability\<close> is an object with the four values
  and the table \<open>optimal\<close> of the four ranges. Field names are global in a theory, so
  the fields of the argument carry the prefix \<open>p_\<close> and those of the table the prefix
  \<open>opt_\<close>.\<close>

record optimal =
  opt_soil_moisture :: "number \<times> number"
  opt_soil_temperature :: "number \<times> number"
  opt_air_temperature :: "number \<times> number"
  opt_air_humidity :: "number \<times> number"

record params =
  p_soil_moisture :: number
  p_soil_temperature :: number
  p_air_temperature :: number
  p_air_humidity :: number
  p_optimal :: optimal

definition calculateParameterScore :: "number \<Rightarrow> number \<times> number \<Rightarrow> number" where
  "calculateParameterScore val opt =
     (let min' = fst opt;
          max' = snd opt;
          mid = js_div (js_add min' max') (Num 2);
          range' = js_sub max' min'
      in if js_ge val min' \<and> js_le val max' then
           (let distanceFromCenter = Math_abs (js_sub val mid)
            in js_sub (Num 100)
                 (js_mul (js_div distanceFromCenter (js_div range' (Num 2))) (Num 20)))
         else
           (let distance = (if js_lt val min' then js_sub min' val else js_sub val max');
                penalty = Math_min (js_mul distance (Num 5)) (Num 80)
            in Math_max (Num 20) (js_sub (Num 100) penalty)))"

definition calculateCropSuitability :: "params \<Rightarrow> number" where
  "calculateCropSuitability p =
     (let scores =
            [calculateParameterScore (p_soil_moisture p) (opt_soil_moisture (p_optimal p)),
             calculateParameterScore (p_soil_temperature p) (opt_soil_temperature (p_optimal p)),
             calculateParameterScore (p_air_temperature p) (opt_air_temperature (p_optimal p)),
             calculateParameterScore (p_air_humidity p) (opt_air_humidity (p_optimal p))]
      in Math_round (js_div (foldl js_add (Num 0) scores) (Num (of_nat (length scores)))))"

text \<open>The five tables of optimal ranges written out in \<open>generateCropRecommendations\<close>.\<close>

definition range_of :: "rat \<Rightarrow> rat \<Rightarrow> number \<times> number" where
  "range_of lo hi = (Num lo, Num hi)"

definition tomato_optimal :: optimal where
  "tomato_optimal =
     \<lparr>opt_soil_moisture = range_of 40 70, opt_soil_temperature = range_of 18 24,
      opt_air_temperature = range_of 20 30, opt_air_humidity = range_of 50 70\<rparr>"

definition lettuce_optimal :: optimal where
  "lettuce_optimal =
     \<lparr>opt_soil_moisture = range_of 50 80, opt_soil_temperature = range_of 10 18,
      opt_air_temperature = range_of 15 25, opt_air_humidity = range_of 60 80\<rparr>"

definition pepper_optimal :: optimal where
  "pepper_optimal =
     \<lparr>opt_soil_moisture = range_of 35 65, opt_soil_temperature = range_of 20 28,
      opt_air_temperature = range_of 22 32, opt_air_humidity = range_of 40 60\<rparr>"

definition spinach_optimal :: optimal where
  "spinach_optimal =
     \<lparr>opt_soil_moisture = range_of 60 85, opt_soil_temperature = range_of 8 16,
      opt_air_temperature = range_of 10 20, opt_air_humidity = range_of 65 85\<rparr>"

definition carrot_optimal :: optimal where
  "carrot_optimal =
     \<lparr>opt_soil_moisture = range_of 45 75, opt_soil_temperature = range_of 12 20,
      opt_air_temperature = range_of 16 24, opt_air_humidity = range_of 50 70\<rparr>"

definition builtin_optimals :: "optimal list" where
  "builtin_optimals =
     [tomato_optimal, lettuce_optimal, pepper_optimal, spinach_optimal, carrot_optimal]"

text \<open>A recommendation. The advice text and the static descriptions of a crop do not
  enter the score or the order and are not modelled.\<close>

record CropRecommendation =
  crop_type :: string
  suitability_score :: number

text \<open>\<open>Array.prototype.sort\<close> with a comparison function: the language requires a
  stable sort, and reads a \<open>NaN\<close> result of the comparison as zero. For a consistent
  comparison the result is that of this insertion sort, which puts an element behind
  exactly the elements that compare strictly before it.\<close>

fun insert_by :: "('a \<Rightarrow> 'a \<Rightarrow> number) \<Rightarrow> 'a \<Rightarrow> 'a list \<Rightarrow> 'a list" where
  "insert_by cmp x [] = [x]"
| "insert_by cmp x (y # ys) =
     (if js_gt (cmp x y) (Num 0) then y # insert_by cmp x ys else x # y # ys)"

definition Array_sort :: "('a \<Rightarrow> 'a \<Rightarrow> number) \<Rightarrow> 'a list \<Rightarrow> 'a list" where
  "Array_sort cmp xs = foldr (insert_by cmp) xs []"

definition by_score_descending :: "CropRecommendation \<Rightarrow> CropRecommendation \<Rightarrow> number" where
  "by_score_descending a b = js_sub (suitability_score b) (suitability_score a)"

definition params_of :: "sensorData \<Rightarrow> optimal \<Rightarrow> params" where
  "params_of s opt =
     \<lparr>p_soil_moisture = ToNumber (soil_moisture s),
      p_soil_temperature = ToNumber (soil_temperature s),
      p_air_temperature = ToNumber (air_temperature s),
      p_air_humidity = ToNumber (air_humidity s),
      p_optimal = opt\<rparr>"

definition generateCropRecommendations :: "sensorData \<Rightarrow> CropRecommendation list" where
  "generateCropRecommendations s =
     (let tomatoScore = calculateCropSuitability (params_of s tomato_optimal);
          lettuceScore = calculateCropSuitability (params_of s lettuce_optimal);
          pepperScore = calculateCropSuitability (params_of s pepper_optimal);
          spinachScore = calculateCropSuitability (params_of s spinach_optimal);
          carrotScore = calculateCropSuitability (params_of s carrot_optimal);
          recommendations =
            [\<lparr>crop_type = ''Tomatoes'', suitability_score = tomatoScore\<rparr>,
             \<lparr>crop_type = ''Lettuce'', suitability_score = lettuceScore\<rparr>,
             \<lparr>crop_type = ''Peppers'', suitability_score = pepperScore\<rparr>,
             \<lparr>crop_type = ''Spinach'', suitability_score = spinachScore\<rparr>,
             \<lparr>crop_type = ''Carrots'', suitability_score = carrotScore\<rparr>]
      in Array_sort by_score_descending recommendations)"

section \<open>Auxiliary notions for the statements\<close>

text \<open>The four properties that \<open>determineMotorAction\<close> reads are all present.\<close>

definition has_required_fields :: "sensorData \<Rightarrow> bool" where
  "has_required_fields s =
     (soil_moisture s \<noteq> None \<and> air_temperature s \<noteq> None
      \<and> air_humidity s \<noteq> None \<and> rainfall s \<noteq> None)"

text \<open>The two branches of \<open>calculateParameterScore\<close> on finite arguments, as
  rational expressions.\<close>

definition in_range_score :: "rat \<Rightarrow> rat \<Rightarrow> rat \<Rightarrow> rat" where
  "in_range_score lo hi v = 100 - \<bar>v - (lo + hi) / 2\<bar> / ((hi - lo) / 2) * 20"

definition out_of_range_score :: "rat \<Rightarrow> rat \<Rightarrow> rat \<Rightarrow> rat" where
  "out_of_range_score lo hi v =
     max 20 (100 - min ((if v < lo then lo - v else v - hi) * 5) 80)"

text \<open>Every range of a table has \<open>min < max\<close>.\<close>

definition nondegenerate :: "optimal \<Rightarrow> bool" where
  "nondegenerate opt =
     (js_lt (fst (opt_soil_moisture opt)) (snd (opt_soil_moisture opt))
      \<and> js_lt (fst (opt_soil_temperature opt)) (snd (opt_soil_temperature opt))
      \<and> js_lt (fst (opt_air_temperature opt)) (snd (opt_air_temperature opt))
      \<and> js_lt (fst (opt_air_humidity opt)) (snd (opt_air_humidity opt)))"

text \<open>Every score of a list of recommendations is a finite number.\<close>

definition finite_scores :: "CropRecommendation list \<Rightarrow> bool" where
  "finite_scores recs = (\<forall>r\<in>set recs. \<exists>q. suitability_score r = Num q)"

section \<open>Lemmas about the score of one parameter\<close>

lemma score_inside:
  assumes "lo < hi" "lo \<le> v" "v \<le> hi"
  shows "calculateParameterScore (Num v) (Num lo, Num hi) = Num (in_range_score lo hi v)"
  using assms
  by (simp add: calculateParameterScore_def in_range_score_def js_ge_def js_sub_def Let_def)

lemma score_outside:
  assumes "v < lo \<or> hi < v"
  shows "calculateParameterScore (Num v) (Num lo, Num hi) = Num (out_of_range_score lo hi v)"
  using assms
  by (auto simp add: calculateParameterScore_def out_of_range_score_def js_ge_def js_sub_def
      Let_def min_def max_def)

lemma in_range_score_bounds:
  assumes "lo < hi" "lo \<le> v" "v \<le> hi"
  shows "80 \<le> in_range_score lo hi v \<and> in_range_score lo hi v \<le> 100"
proof -
  let ?h = "(hi - lo) / 2"
  let ?q = "\<bar>v - (lo + hi) / 2\<bar> / ?h"
  have h: "0 < ?h" using assms by simp
  have "\<bar>v - (lo + hi) / 2\<bar> \<le> ?h" using assms by (simp add: abs_le_iff field_simps)
  then have "?q \<le> 1" using h by (simp add: divide_le_eq)
  moreover have "0 \<le> ?q" using h by simp
  ultimately show ?thesis unfolding in_range_score_def by linarith
qed

lemma out_of_range_score_bounds:
  assumes "v < lo \<or> hi < v"
  shows "20 \<le> out_of_range_score lo hi v \<and> out_of_range_score lo hi v \<le> 100"
  using assms unfolding out_of_range_score_def by (auto simp: min_def max_def)

lemma parameter_score_bounded:
  assumes "lo < hi"
  shows "\<exists>s. calculateParameterScore (Num v) (Num lo, Num hi) = Num s \<and> 20 \<le> s \<and> s \<le> 100"
proof (cases "lo \<le> v \<and> v \<le> hi")
  case True
  then show ?thesis
    using score_inside [OF assms, of v] in_range_score_bounds [OF assms, of v] by auto
next
  case False
  then have out: "v < lo \<or> hi < v" by auto
  show ?thesis
    using score_outside [OF out] out_of_range_score_bounds [OF out] by auto
qed

lemma round_mean_bounds:
  fixes a b c d :: rat
  assumes "20 \<le> a" "a \<le> 100" "20 \<le> b" "b \<le> 100" "20 \<le> c" "c \<le> 100" "20 \<le> d" "d \<le> 100"
  shows "20 \<le> \<lfloor>(a + b + c + d) / 4 + 1 / 2\<rfloor> \<and> \<lfloor>(a + b + c + d) / 4 + 1 / 2\<rfloor> \<le> 100"
proof -
  have lo: "of_int 20 \<le> (a + b + c + d) / 4 + 1 / 2" using assms by (simp add: field_simps)
  have hi: "(a + b + c + d) / 4 + 1 / 2 < of_int 101" using assms by (simp add: field_simps)
  have "20 \<le> \<lfloor>(a + b + c + d) / 4 + 1 / 2\<rfloor>" using lo by (simp only: le_floor_iff)
  moreover have "\<lfloor>(a + b + c + d) / 4 + 1 / 2\<rfloor> < 101" using hi by (simp only: floor_less_iff)
  ultimately show ?thesis by simp
qed

lemma suitability_of_scores:
  assumes "calculateParameterScore (p_soil_moisture p) (opt_soil_moisture (p_optimal p)) = Num a"
    and "calculateParameterScore (p_soil_temperature p) (opt_soil_temperature (p_optimal p)) = Num b"
    and "calculateParameterScore (p_air_temperature p) (opt_air_temperature (p_optimal p)) = Num c"
    and "calculateParameterScore (p_air_humidity p) (opt_air_humidity (p_optimal p)) = Num d"
  shows "calculateCropSuitability p = Num (of_int \<lfloor>(a + b + c + d) / 4 + 1 / 2\<rfloor>)"
  using assms by (simp add: calculateCropSuitability_def)

lemma suitability_bounded:
  assumes "mlo < mhi" "slo < shi" "tlo < thi" "hlo < hhi"
  shows "\<exists>n::int.
           calculateCropSuitability
             \<lparr>p_soil_moisture = Num m, p_soil_temperature = Num st,
              p_air_temperature = Num t, p_air_humidity = Num h,
              p_optimal = \<lparr>opt_soil_moisture = (Num mlo, Num mhi),
                           opt_soil_temperature = (Num slo, Num shi),
                           opt_air_temperature = (Num tlo, Num thi),
                           opt_air_humidity = (Num hlo, Num hhi)\<rparr>\<rparr> = Num (of_int n)
           \<and> 20 \<le> n \<and> n \<le> 100"
proof -
  obtain a where a: "calculateParameterScore (Num m) (Num mlo, Num mhi) = Num a" "20 \<le> a" "a \<le> 100"
    using parameter_score_bounded [OF assms(1)] by blast
  obtain b where b: "calculateParameterScore (Num st) (Num slo, Num shi) = Num b" "20 \<le> b" "b \<le> 100"
    using parameter_score_bounded [OF assms(2)] by blast
  obtain c where c: "calculateParameterScore (Num t) (Num tlo, Num thi) = Num c" "20 \<le> c" "c \<le> 100"
    using parameter_score_bounded [OF assms(3)] by blast
  obtain d where d: "calculateParameterScore (Num h) (Num hlo, Num hhi) = Num d" "20 \<le> d" "d \<le> 100"
    using parameter_score_bounded [OF assms(4)] by blast
  let ?n = "\<lfloor>(a + b + c + d) / 4 + 1 / 2\<rfloor>"
  have "calculateCropSuitability
             \<lparr>p_soil_moisture = Num m, p_soil_temperature = Num st,
              p_air_temperature = Num t, p_air_humidity = Num h,
              p_optimal = \<lparr>opt_soil_moisture = (Num mlo, Num mhi),
                           opt_soil_temperature = (Num slo, Num shi),
                           opt_air_temperature = (Num tlo, Num thi),
                           opt_air_humidity = (Num hlo, Num hhi)\<rparr>\<rparr> = Num (of_int ?n)"
    by (rule suitability_of_scores) (simp_all add: a b c d)
  moreover have "20 \<le> ?n \<and> ?n \<le> 100"
    by (rule round_mean_bounds) (fact a b c d)+
  ultimately show ?thesis by blast
qed

section \<open>Lemmas about the automatic-control handler\<close>

lemma reason_defined:
  assumes "soil_moisture r \<noteq> None" "air_temperature r \<noteq> None"
  shows "\<exists>t. generateAutoControlReason r b = Inr t"
proof -
  obtain m t where mt: "soil_moisture r = Some m" "air_temperature r = Some t"
    using assms by auto
  show ?thesis
    by (cases "rainfall r"; cases "air_humidity r")
       (simp_all add: generateAutoControlReason_def toFixed_def and_then_def js_gt_def mt Let_def)
qed

lemma auto_control_automatic:
  assumes "sensor_readings d = r # rs" "motor_control d = m # ms" "mode m = ''automatic''"
  shows "auto_control_POST d =
           (if determineMotorAction r \<noteq> status m then
              (case generateAutoControlReason r (determineMotorAction r) of
                 Inl thrown \<Rightarrow> (ServerError ''Internal server error'', d)
               | Inr t \<Rightarrow>
                  (Switched (determineMotorAction r) t
                     \<lparr>status = determineMotorAction r, mode = ''automatic'',
                      reason = Some t, changed_by = ''system''\<rparr>,
                   d\<lparr>motor_control :=
                       \<lparr>status = determineMotorAction r, mode = ''automatic'',
                        reason = Some t, changed_by = ''system''\<rparr> # motor_control d\<rparr>))
            else (NoActionNeeded (status m), d))"
  using assms
  by (simp add: auto_control_POST_def latest_def insert_motor_row_def Let_def split: sum.splits)

section \<open>Lemmas about sorting the recommendations\<close>

lemma equal_scores_keep_order:
  assumes "suitability_score x = suitability_score y"
  shows "\<not> js_gt (by_score_descending x y) (Num 0)"
  using assms
  by (cases "suitability_score y") (simp_all add: by_score_descending_def js_sub_def js_gt_def)

lemma filter_insert_by:
  "filter (\<lambda>r. suitability_score r = k) (insert_by by_score_descending x ys)
     = (if suitability_score x = k then x # filter (\<lambda>r. suitability_score r = k) ys
        else filter (\<lambda>r. suitability_score r = k) ys)"
proof (induction ys)
  case Nil
  show ?case by simp
next
  case (Cons y ys)
  show ?case
  proof (cases "js_gt (by_score_descending x y) (Num 0)")
    case True
    then have "suitability_score x \<noteq> suitability_score y"
      using equal_scores_keep_order [of x y] by blast
    then show ?thesis using True Cons.IH by auto
  next
    case False
    then show ?thesis by simp
  qed
qed

lemma filter_Array_sort:
  "filter (\<lambda>r. suitability_score r = k) (Array_sort by_score_descending xs)
     = filter (\<lambda>r. suitability_score r = k) xs"
  by (induction xs) (simp_all add: Array_sort_def filter_insert_by)

lemma set_insert_by: "set (insert_by cmp x ys) = insert x (set ys)"
  by (induction ys) auto

lemma set_Array_sort: "set (Array_sort cmp xs) = set xs"
  by (induction xs) (simp_all add: Array_sort_def set_insert_by)

lemma insert_by_descending:
  assumes "finite_scores (x # ys)"
    and "sorted_wrt (\<lambda>a b. js_ge (suitability_score a) (suitability_score b)) ys"
  shows "sorted_wrt (\<lambda>a b. js_ge (suitability_score a) (suitability_score b))
           (insert_by by_score_descending x ys)"
  using assms
proof (induction ys)
  case Nil
  show ?case by simp
next
  case (Cons y ys)
  obtain sx sy where s: "suitability_score x = Num sx" "suitability_score y = Num sy"
    using Cons.prems(1) by (auto simp: finite_scores_def)
  have rest: "\<forall>z\<in>set ys. \<exists>sz. suitability_score z = Num sz \<and> sz \<le> sy"
    using Cons.prems by (fastforce simp: finite_scores_def js_ge_def s)
  show ?case
  proof (cases "js_gt (by_score_descending x y) (Num 0)")
    case True
    then have "sx \<le> sy" by (simp add: by_score_descending_def js_sub_def js_gt_def s)
    moreover have "sorted_wrt (\<lambda>a b. js_ge (suitability_score a) (suitability_score b))
           (insert_by by_score_descending x ys)"
      using Cons.IH Cons.prems by (simp add: finite_scores_def)
    ultimately show ?thesis
      using True Cons.prems(2) by (auto simp: set_insert_by js_ge_def s)
  next
    case False
    then have "sy \<le> sx" by (simp add: by_score_descending_def js_sub_def js_gt_def s)
    then show ?thesis
      using False Cons.prems(2) rest by (fastforce simp: js_ge_def s)
  qed
qed

lemma Array_sort_descending:
  assumes "finite_scores xs"
  shows "sorted_wrt (\<lambda>a b. js_ge (suitability_score a) (suitability_score b))
           (Array_sort by_score_descending xs)"
  using assms
proof (induction xs)
  case Nil
  show ?case by (simp add: Array_sort_def)
next
  case (Cons x xs)
  have tail: "finite_scores xs" using Cons.prems by (simp add: finite_scores_def)
  have "finite_scores (x # Array_sort by_score_descending xs)"
    using Cons.prems by (simp add: finite_scores_def set_Array_sort)
  then have "sorted_wrt (\<lambda>a b. js_ge (suitability_score a) (suitability_score b))
           (insert_by by_score_descending x (Array_sort by_score_descending xs))"
    using Cons.IH [OF tail] by (rule insert_by_descending)
  then show ?case by (simp add: Array_sort_def)
qed

lemma builtin_score_finite:
  assumes "opt \<in> set builtin_optimals"
  shows "\<exists>n::int. calculateCropSuitability
            (params_of \<lparr>soil_moisture = Some m, soil_temperature = Some st,
                        air_temperature = Some t, air_humidity = Some h, rainfall = rf\<rparr> opt)
          = Num (of_int n)"
proof -
  have "\<exists>n::int. calculateCropSuitability
            (params_of \<lparr>soil_moisture = Some m, soil_temperature = Some st,
                        air_temperature = Some t, air_humidity = Some h, rainfall = rf\<rparr>
               \<lparr>opt_soil_moisture = range_of a b, opt_soil_temperature = range_of c d,
                opt_air_temperature = range_of e f, opt_air_humidity = range_of g i\<rparr>)
          = Num (of_int n)"
    if "a < b" "c < d" "e < f" "g < i" for a b c d e f g i
    using suitability_bounded [OF that, of m st t h] by (auto simp: params_of_def range_of_def)
  then show ?thesis
    using assms
    by (auto simp: builtin_optimals_def tomato_optimal_def lettuce_optimal_def
        pepper_optimal_def spinach_optimal_def carrot_optimal_def)
qed

section \<open>The claims\<close>

text \<open>
  C3. For every reading with finite values and every table of optimal ranges whose four
  ranges have \<open>min < max\<close>, the overall suitability score (the rounded mean of the four
  parameter scores) is an integer between 20 and 100.
\<close>

theorem crop_score_in_20_100:
  assumes "mlo < mhi" "slo < shi" "tlo < thi" "hlo < hhi"
  shows "\<exists>n::int.
           calculateCropSuitability
             \<lparr>p_soil_moisture = Num m, p_soil_temperature = Num st,
              p_air_temperature = Num t, p_air_humidity = Num h,
              p_optimal = \<lparr>opt_soil_moisture = (Num mlo, Num mhi),
                           opt_soil_temperature = (Num slo, Num shi),
                           opt_air_temperature = (Num tlo, Num thi),
                           opt_air_humidity = (Num hlo, Num hhi)\<rparr>\<rparr> = Num (of_int n)
           \<and> 20 \<le> n \<and> n \<le> 100"
  using assms by (rule suitability_bounded)

theorem crop_score_in_20_100_witness:
  "(40::rat) < 70 \<and> (18::rat) < 24 \<and> (20::rat) < 30 \<and> (50::rat) < 70 \<and>
   (\<exists>n::int.
           calculateCropSuitability
             \<lparr>p_soil_moisture = Num 10, p_soil_temperature = Num 40,
              p_air_temperature = Num 25, p_air_humidity = Num 71,
              p_optimal = \<lparr>opt_soil_moisture = (Num 40, Num 70),
                           opt_soil_temperature = (Num 18, Num 24),
                           opt_air_temperature = (Num 20, Num 30),
                           opt_air_humidity = (Num 50, Num 70)\<rparr>\<rparr> = Num (of_int n)
           \<and> 20 \<le> n \<and> n \<le> 100)"
  using crop_score_in_20_100 [of 40 70 18 24 20 30 50 70 10 40 25 71] by simp

text \<open>
  C6. For a range with \<open>min < max\<close>, the parameter score is exactly 100 at the midpoint
  \<open>(min + max) / 2\<close> and exactly 80 at \<open>min\<close> and at \<open>max\<close>.
\<close>

theorem score_at_mid_min_max:
  assumes "lo < hi"
  shows "calculateParameterScore (Num ((lo + hi) / 2)) (Num lo, Num hi) = Num 100
       \<and> calculateParameterScore (Num lo) (Num lo, Num hi) = Num 80
       \<and> calculateParameterScore (Num hi) (Num lo, Num hi) = Num 80"
proof -
  have mid: "lo \<le> (lo + hi) / 2" "(lo + hi) / 2 \<le> hi" using assms by simp_all
  have h: "(hi - lo) / 2 \<noteq> 0" using assms by simp
  have "in_range_score lo hi ((lo + hi) / 2) = 100" by (simp add: in_range_score_def)
  moreover have "\<bar>lo - (lo + hi) / 2\<bar> = (hi - lo) / 2" using assms by (simp add: abs_if field_simps)
  then have "in_range_score lo hi lo = 80" using h by (simp add: in_range_score_def)
  moreover have "\<bar>hi - (lo + hi) / 2\<bar> = (hi - lo) / 2" using assms by (simp add: abs_if field_simps)
  then have "in_range_score lo hi hi = 80" using h by (simp add: in_range_score_def)
  ultimately show ?thesis
    using score_inside [OF assms mid] score_inside [OF assms, of lo] score_inside [OF assms, of hi] assms
    by simp
qed

theorem score_at_mid_min_max_witness:
  "(40::rat) < 70
   \<and> calculateParameterScore (Num 55) (Num 40, Num 70) = Num 100
   \<and> calculateParameterScore (Num 40) (Num 40, Num 70) = Num 80
   \<and> calculateParameterScore (Num 70) (Num 40, Num 70) = Num 80"
proof -
  have h: "(40::rat) < 70" by simp
  show ?thesis using h score_at_mid_min_max [OF h] by simp
qed

text \<open>
  C5. In automatic mode, on a reading that has its required fields, the automatic-control
  operation appends a record exactly when the decision differs from the status of the
  latest record: then it appends one record, which carries the decision, and otherwise
  it leaves the store as it is. A second run on the same reading appends nothing, so two
  runs append at most one record.
\<close>

theorem append_iff_decision_differs:
  assumes "sensor_readings d = r # rs" "motor_control d = m # ms" "mode m = ''automatic''"
    and "has_required_fields r"
  shows "(motor_control (snd (auto_control_POST d)) \<noteq> motor_control d
            \<longleftrightarrow> determineMotorAction r \<noteq> status m)
       \<and> (determineMotorAction r \<noteq> status m \<longrightarrow>
            (\<exists>t. motor_control (snd (auto_control_POST d)) =
                   \<lparr>status = determineMotorAction r, mode = ''automatic'',
                    reason = Some t, changed_by = ''system''\<rparr> # motor_control d))
       \<and> (determineMotorAction r = status m \<longrightarrow> snd (auto_control_POST d) = d)
       \<and> snd (auto_control_POST (snd (auto_control_POST d))) = snd (auto_control_POST d)
       \<and> length (motor_control (snd (auto_control_POST (snd (auto_control_POST d)))))
           \<le> length (motor_control d) + 1"
proof -
  obtain t where t: "generateAutoControlReason r (determineMotorAction r) = Inr t"
    using reason_defined [of r] assms(4) by (auto simp: has_required_fields_def)
  let ?row = "\<lparr>status = determineMotorAction r, mode = ''automatic'',
                reason = Some t, changed_by = ''system''\<rparr>"
  let ?d' = "snd (auto_control_POST d)"
  have first: "?d' = (if determineMotorAction r \<noteq> status m
                      then d\<lparr>motor_control := ?row # motor_control d\<rparr> else d)"
    unfolding auto_control_automatic [OF assms(1-3)] t by simp
  have second: "snd (auto_control_POST ?d') = ?d'"
  proof (cases "determineMotorAction r \<noteq> status m")
    case True
    then have d': "?d' = d\<lparr>motor_control := ?row # motor_control d\<rparr>" using first by simp
    have "auto_control_POST ?d' = (NoActionNeeded (determineMotorAction r), ?d')"
      unfolding d'
      by (subst auto_control_automatic [where r = r and rs = rs and m = ?row and ms = "motor_control d"])
         (simp_all add: assms(1))
    then show ?thesis by simp
  next
    case False
    then have "?d' = d" using first by simp
    then show ?thesis by simp
  qed
  show ?thesis
    unfolding second using first by auto
qed

theorem append_iff_decision_differs_witness:
  "motor_control (snd (auto_control_POST
      \<lparr>sensor_readings = [\<lparr>soil_moisture = Some 15, soil_temperature = Some 20,
          air_temperature = Some 25, air_humidity = Some 60, rainfall = Some 0\<rparr>],
       motor_control = [\<lparr>status = False, mode = ''automatic'', reason = None,
          changed_by = ''system''\<rparr>]\<rparr>))
   = [\<lparr>status = True, mode = ''automatic'', reason = Some (CriticalSoilMoisture 15),
       changed_by = ''system''\<rparr>,
      \<lparr>status = False, mode = ''automatic'', reason = None, changed_by = ''system''\<rparr>]"
proof -
  let ?r = "\<lparr>soil_moisture = Some 15, soil_temperature = Some 20,
          air_temperature = Some 25, air_humidity = Some 60, rainfall = Some (0::rat)\<rparr>"
  let ?m = "\<lparr>status = False, mode = ''automatic'', reason = None, changed_by = ''system''\<rparr>"
  let ?d = "\<lparr>sensor_readings = [?r], motor_control = [?m]\<rparr>"
  have h1: "sensor_readings ?d = ?r # []" by simp
  have h2: "motor_control ?d = ?m # []" by simp
  have h3: "mode ?m = ''automatic''" by simp
  have h4: "has_required_fields ?r" by (simp add: has_required_fields_def)
  have dec: "determineMotorAction ?r = True" by (simp add: determineMotorAction_def js_gt_def)
  have rsn: "generateAutoControlReason ?r True = Inr (CriticalSoilMoisture 15)"
    by (simp add: generateAutoControlReason_def js_gt_def toFixed_def and_then_def)
  from append_iff_decision_differs [OF h1 h2 h3 h4]
  have "\<exists>t. motor_control (snd (auto_control_POST ?d)) =
               \<lparr>status = True, mode = ''automatic'', reason = Some t, changed_by = ''system''\<rparr> # [?m]"
    by (simp add: dec)
  then obtain t where t: "motor_control (snd (auto_control_POST ?d)) =
               \<lparr>status = True, mode = ''automatic'', reason = Some t, changed_by = ''system''\<rparr> # [?m]"
    by blast
  have "motor_control (snd (auto_control_POST ?d)) =
               \<lparr>status = True, mode = ''automatic'', reason = Some (CriticalSoilMoisture 15),
                changed_by = ''system''\<rparr> # [?m]"
    by (simp add: auto_control_automatic [OF h1 h2 h3] dec rsn)
  with t show ?thesis by simp
qed

text \<open>
  C4. The rules are tried in a fixed order and the first that matches decides: rainfall
  above 1 mm gives off, also when the soil moisture is below 30; otherwise a soil
  moisture below 30 gives on; otherwise a soil moisture above 60 gives off; otherwise a
  soil moisture below 40 with an air temperature above 30 and an air humidity below 50
  gives on.
\<close>

theorem rule_priority:
  assumes "rainfall r = Some rf" "soil_moisture r = Some m"
    and "air_temperature r = Some t" "air_humidity r = Some h"
  shows "(1 < rf \<longrightarrow> determineMotorAction r = False)
       \<and> (\<not> 1 < rf \<and> m < 30 \<longrightarrow> determineMotorAction r = True)
       \<and> (\<not> 1 < rf \<and> \<not> m < 30 \<and> 60 < m \<longrightarrow> determineMotorAction r = False)
       \<and> (\<not> 1 < rf \<and> \<not> m < 30 \<and> \<not> 60 < m \<and> m < 40 \<and> 30 < t \<and> h < 50
            \<longrightarrow> determineMotorAction r = True)"
  using assms by (simp add: determineMotorAction_def js_gt_def)

theorem rule_priority_witness:
  "determineMotorAction \<lparr>soil_moisture = Some 15, soil_temperature = None,
       air_temperature = Some 25, air_humidity = Some 60, rainfall = Some 2\<rparr> = False
   \<and> determineMotorAction \<lparr>soil_moisture = Some 18, soil_temperature = None,
       air_temperature = Some 25, air_humidity = Some 60, rainfall = Some 0\<rparr> = True
   \<and> determineMotorAction \<lparr>soil_moisture = Some 65, soil_temperature = None,
       air_temperature = Some 35, air_humidity = Some 40, rainfall = Some 1\<rparr> = False
   \<and> determineMotorAction \<lparr>soil_moisture = Some 35, soil_temperature = None,
       air_temperature = Some 32, air_humidity = Some 45, rainfall = Some 0\<rparr> = True"
  using rule_priority [of "\<lparr>soil_moisture = Some 15, soil_temperature = None,
       air_temperature = Some 25, air_humidity = Some 60, rainfall = Some 2\<rparr>" 2 15 25 60]
    rule_priority [of "\<lparr>soil_moisture = Some 18, soil_temperature = None,
       air_temperature = Some 25, air_humidity = Some 60, rainfall = Some 0\<rparr>" 0 18 25 60]
    rule_priority [of "\<lparr>soil_moisture = Some 65, soil_temperature = None,
       air_temperature = Some 35, air_humidity = Some 40, rainfall = Some 1\<rparr>" 1 65 35 40]
    rule_priority [of "\<lparr>soil_moisture = Some 35, soil_temperature = None,
       air_temperature = Some 32, air_humidity = Some 45, rainfall = Some 0\<rparr>" 0 35 32 45]
  by simp

text \<open>
  C1. The claim is that a reading with a soil moisture between 30 and 60, no rain and no
  hot and dry air keeps the motor as it is. The source announces this in a comment
  (maintain current status for borderline cases) and returns \<open>false\<close>: at soil moisture
  50, air temperature 22, air humidity 60 and no rain, a running motor in automatic mode
  is switched off and a record of that is appended.
\<close>

theorem hold_region_switches_off:
  "determineMotorAction \<lparr>soil_moisture = Some 50, soil_temperature = Some 20,
       air_temperature = Some 22, air_humidity = Some 60, rainfall = Some 0\<rparr> = False
   \<and> auto_control_POST
        \<lparr>sensor_readings = [\<lparr>soil_moisture = Some 50, soil_temperature = Some 20,
            air_temperature = Some 22, air_humidity = Some 60, rainfall = Some 0\<rparr>],
         motor_control = [\<lparr>status = True, mode = ''automatic'', reason = None,
            changed_by = ''user''\<rparr>]\<rparr>
     = (Switched False (AutomaticControlBasedOn 50 22)
          \<lparr>status = False, mode = ''automatic'',
           reason = Some (AutomaticControlBasedOn 50 22), changed_by = ''system''\<rparr>,
        \<lparr>sensor_readings = [\<lparr>soil_moisture = Some 50, soil_temperature = Some 20,
            air_temperature = Some 22, air_humidity = Some 60, rainfall = Some 0\<rparr>],
         motor_control = [\<lparr>status = False, mode = ''automatic'',
            reason = Some (AutomaticControlBasedOn 50 22), changed_by = ''system''\<rparr>,
           \<lparr>status = True, mode = ''automatic'', reason = None,
            changed_by = ''user''\<rparr>]\<rparr>)"
  by (simp add: determineMotorAction_def auto_control_POST_def latest_def js_gt_def
      generateAutoControlReason_def toFixed_def and_then_def insert_motor_row_def Let_def)

text \<open>
  C9. When the latest motor record has mode manual, the automatic-control operation
  leaves the store as it is, whatever the readings are. Of the two handlers that write
  motor records, only a request to the manual endpoint then changes the log, and the
  record it appends carries the status, mode and author of the request.
\<close>

theorem manual_mode_untouched:
  assumes "motor_control d = m # ms" "mode m = ''manual''"
  shows "snd (auto_control_POST d) = d
       \<and> (\<forall>e. motor_control (handle e d) \<noteq> motor_control d \<longrightarrow>
              (\<exists>q row. e = MotorRequest q
                   \<and> motor_control (handle e d) = row # motor_control d
                   \<and> req_status q = Some (status row) \<and> mode row = req_mode q
                   \<and> changed_by row = req_changed_by q))"
proof -
  have auto: "snd (auto_control_POST d) = d"
    using assms by (simp add: auto_control_POST_def latest_def split: sum.splits list.splits)
  have "\<exists>q row. e = MotorRequest q
                   \<and> motor_control (handle e d) = row # motor_control d
                   \<and> req_status q = Some (status row) \<and> mode row = req_mode q
                   \<and> changed_by row = req_changed_by q"
    if "motor_control (handle e d) \<noteq> motor_control d" for e
  proof (cases e)
    case AutoControlCheck
    then show ?thesis using that auto by simp
  next
    case (MotorRequest q)
    then show ?thesis using that
      by (auto simp: motor_POST_def insert_motor_row_def split: option.splits if_splits)
  qed
  then show ?thesis using auto by blast
qed

theorem manual_mode_untouched_witness:
  "snd (auto_control_POST
      \<lparr>sensor_readings = [\<lparr>soil_moisture = Some 15, soil_temperature = Some 20,
          air_temperature = Some 25, air_humidity = Some 60, rainfall = Some 0\<rparr>],
       motor_control = [\<lparr>status = False, mode = ''manual'', reason = None,
          changed_by = ''user''\<rparr>]\<rparr>)
   = \<lparr>sensor_readings = [\<lparr>soil_moisture = Some 15, soil_temperature = Some 20,
          air_temperature = Some 25, air_humidity = Some 60, rainfall = Some 0\<rparr>],
       motor_control = [\<lparr>status = False, mode = ''manual'', reason = None,
          changed_by = ''user''\<rparr>]\<rparr>"
proof -
  let ?m = "\<lparr>status = False, mode = ''manual'', reason = None, changed_by = ''user''\<rparr>"
  let ?d = "\<lparr>sensor_readings = [\<lparr>soil_moisture = Some 15, soil_temperature = Some 20,
          air_temperature = Some 25, air_humidity = Some 60, rainfall = Some (0::rat)\<rparr>],
       motor_control = [?m]\<rparr>"
  have h1: "motor_control ?d = ?m # []" by simp
  have h2: "mode ?m = ''manual''" by simp
  from manual_mode_untouched [OF h1 h2] show ?thesis by blast
qed

text \<open>
  C2 as stated fails: no input error exists in the handler. With the rainfall missing
  and a soil moisture of 15, an idle motor in automatic mode is switched on and a record
  is appended.
\<close>

theorem missing_rainfall_switches_on:
  "\<not> has_required_fields \<lparr>soil_moisture = Some 15, soil_temperature = Some 20,
          air_temperature = Some 25, air_humidity = Some 60, rainfall = None\<rparr>
   \<and> auto_control_POST
        \<lparr>sensor_readings = [\<lparr>soil_moisture = Some 15, soil_temperature = Some 20,
            air_temperature = Some 25, air_humidity = Some 60, rainfall = None\<rparr>],
         motor_control = [\<lparr>status = False, mode = ''automatic'', reason = None,
            changed_by = ''system''\<rparr>]\<rparr>
     = (Switched True (CriticalSoilMoisture 15)
          \<lparr>status = True, mode = ''automatic'',
           reason = Some (CriticalSoilMoisture 15), changed_by = ''system''\<rparr>,
        \<lparr>sensor_readings = [\<lparr>soil_moisture = Some 15, soil_temperature = Some 20,
            air_temperature = Some 25, air_humidity = Some 60, rainfall = None\<rparr>],
         motor_control = [\<lparr>status = True, mode = ''automatic'',
            reason = Some (CriticalSoilMoisture 15), changed_by = ''system''\<rparr>,
           \<lparr>status = False, mode = ''automatic'', reason = None,
            changed_by = ''system''\<rparr>]\<rparr>)"
  by (simp add: has_required_fields_def determineMotorAction_def auto_control_POST_def
      latest_def js_gt_def generateAutoControlReason_def toFixed_def and_then_def
      insert_motor_row_def Let_def)

text \<open>
  C2, amended. On a reading that lacks a required field no input error is raised: a
  comparison with a missing value is false. In automatic mode the log stays as it is
  exactly when the decision equals the current status or the reason cannot be built (a
  \<open>TypeError\<close>, answered as an internal server error), and otherwise one record with
  the decision is appended. With the soil moisture missing the decision is off, and
  unless the rainfall is above 1 mm the store is left unchanged.
\<close>

theorem missing_fields_behaviour:
  assumes "\<not> has_required_fields r"
    and "sensor_readings d = r # rs" "motor_control d = m # ms" "mode m = ''automatic''"
  shows "(motor_control (snd (auto_control_POST d)) = motor_control d
            \<longleftrightarrow> determineMotorAction r = status m
                \<or> generateAutoControlReason r (determineMotorAction r) = Inl TypeError)
       \<and> (motor_control (snd (auto_control_POST d)) \<noteq> motor_control d \<longrightarrow>
            (\<exists>t. motor_control (snd (auto_control_POST d)) =
                   \<lparr>status = determineMotorAction r, mode = ''automatic'',
                    reason = Some t, changed_by = ''system''\<rparr> # motor_control d))
       \<and> (soil_moisture r = None \<longrightarrow> determineMotorAction r = False)
       \<and> (soil_moisture r = None \<and> \<not> js_gt (ToNumber (rainfall r)) (Num 1)
            \<longrightarrow> snd (auto_control_POST d) = d)"
proof -
  note step = auto_control_automatic [OF assms(2-4)]
  have log: "motor_control (snd (auto_control_POST d)) = motor_control d
               \<longleftrightarrow> determineMotorAction r = status m
                   \<or> generateAutoControlReason r (determineMotorAction r) = Inl TypeError"
  proof (cases "generateAutoControlReason r (determineMotorAction r)")
    case (Inl e)
    then have "generateAutoControlReason r (determineMotorAction r) = Inl TypeError"
      by (cases e) simp
    then show ?thesis unfolding step Inl by simp
  next
    case (Inr t)
    show ?thesis unfolding step Inr by simp
  qed
  have appended: "\<exists>t. motor_control (snd (auto_control_POST d)) =
                   \<lparr>status = determineMotorAction r, mode = ''automatic'',
                    reason = Some t, changed_by = ''system''\<rparr> # motor_control d"
    if "motor_control (snd (auto_control_POST d)) \<noteq> motor_control d"
  proof (cases "generateAutoControlReason r (determineMotorAction r)")
    case (Inl e)
    show ?thesis using that unfolding step Inl by (simp split: if_splits)
  next
    case (Inr t)
    show ?thesis using that unfolding step Inr by (simp split: if_splits)
  qed
  have off: "determineMotorAction r = False" if "soil_moisture r = None"
    using that by (simp add: determineMotorAction_def js_gt_def)
  have same: "snd (auto_control_POST d) = d"
    if "soil_moisture r = None" "\<not> js_gt (ToNumber (rainfall r)) (Num 1)"
  proof -
    have thrown: "generateAutoControlReason r False = Inl TypeError"
      using that
      by (simp add: generateAutoControlReason_def js_gt_def toFixed_def and_then_def Let_def)
    show ?thesis unfolding step off [OF that(1)] thrown by simp
  qed
  show ?thesis using log appended off same by blast
qed

theorem missing_fields_behaviour_witness:
  "snd (auto_control_POST
      \<lparr>sensor_readings = [\<lparr>soil_moisture = None, soil_temperature = None,
          air_temperature = None, air_humidity = None, rainfall = None\<rparr>],
       motor_control = [\<lparr>status = True, mode = ''automatic'', reason = None,
          changed_by = ''user''\<rparr>]\<rparr>)
   = \<lparr>sensor_readings = [\<lparr>soil_moisture = None, soil_temperature = None,
          air_temperature = None, air_humidity = None, rainfall = None\<rparr>],
       motor_control = [\<lparr>status = True, mode = ''automatic'', reason = None,
          changed_by = ''user''\<rparr>]\<rparr>"
proof -
  let ?r = "\<lparr>soil_moisture = None, soil_temperature = None,
          air_temperature = None, air_humidity = None, rainfall = None\<rparr>"
  let ?m = "\<lparr>status = True, mode = ''automatic'', reason = None, changed_by = ''user''\<rparr>"
  let ?d = "\<lparr>sensor_readings = [?r], motor_control = [?m]\<rparr>"
  have h1: "\<not> has_required_fields ?r" by (simp add: has_required_fields_def)
  have h2: "sensor_readings ?d = ?r # []" by simp
  have h3: "motor_control ?d = ?m # []" by simp
  have h4: "mode ?m = ''automatic''" by simp
  have h5: "soil_moisture ?r = None \<and> \<not> js_gt (ToNumber (rainfall ?r)) (Num 1)"
    by (simp add: js_gt_def)
  from missing_fields_behaviour [OF h1 h2 h3 h4] h5 show ?thesis by blast
qed

text \<open>
  C10. Outside a range with \<open>min < max\<close>, at a distance \<open>d\<close> with \<open>0 < d < 4\<close> from the
  nearer bound, the parameter score is \<open>100 - 5 * d\<close>, which is above the score 80 at
  the bound itself. So the score is not monotone in the distance from the midpoint (the
  value further from it scores higher) and it is not continuous at \<open>min\<close> and at
  \<open>max\<close>: arbitrarily near the bound there are values whose score is at least 15 away
  from 80.
\<close>

theorem score_jumps_outside_range:
  assumes "lo < hi" "0 < d" "d < 4"
  shows "calculateParameterScore (Num (lo - d)) (Num lo, Num hi) = Num (100 - 5 * d)
       \<and> calculateParameterScore (Num (hi + d)) (Num lo, Num hi) = Num (100 - 5 * d)
       \<and> calculateParameterScore (Num lo) (Num lo, Num hi) = Num 80
       \<and> calculateParameterScore (Num hi) (Num lo, Num hi) = Num 80
       \<and> 80 < 100 - 5 * d
       \<and> \<bar>lo - (lo + hi) / 2\<bar> < \<bar>(lo - d) - (lo + hi) / 2\<bar>
       \<and> \<bar>hi - (lo + hi) / 2\<bar> < \<bar>(hi + d) - (lo + hi) / 2\<bar>
       \<and> (\<forall>\<delta>>0. \<exists>v s. \<bar>v - lo\<bar> < \<delta>
              \<and> calculateParameterScore (Num v) (Num lo, Num hi) = Num s \<and> 15 \<le> \<bar>s - 80\<bar>)
       \<and> (\<forall>\<delta>>0. \<exists>v s. \<bar>v - hi\<bar> < \<delta>
              \<and> calculateParameterScore (Num v) (Num lo, Num hi) = Num s \<and> 15 \<le> \<bar>s - 80\<bar>)"
proof -
  have below: "calculateParameterScore (Num (lo - e)) (Num lo, Num hi) = Num (100 - 5 * e)"
    if "0 < e" "e < 4" for e
    using that score_outside [of "lo - e" lo hi]
    by (simp add: out_of_range_score_def min_def max_def)
  have above: "calculateParameterScore (Num (hi + e)) (Num lo, Num hi) = Num (100 - 5 * e)"
    if "0 < e" "e < 4" for e
    using that assms(1) score_outside [of "hi + e" lo hi]
    by (simp add: out_of_range_score_def min_def max_def)
  have lo80: "calculateParameterScore (Num lo) (Num lo, Num hi) = Num 80"
   and hi80: "calculateParameterScore (Num hi) (Num lo, Num hi) = Num 80"
  proof -
    have h: "(hi - lo) / 2 \<noteq> 0" using assms(1) by simp
    have "\<bar>lo - (lo + hi) / 2\<bar> = (hi - lo) / 2" using assms(1) by (simp add: abs_if field_simps)
    then have "in_range_score lo hi lo = 80" using h by (simp add: in_range_score_def)
    then show "calculateParameterScore (Num lo) (Num lo, Num hi) = Num 80"
      using score_inside [OF assms(1), of lo] assms(1) by simp
    have "\<bar>hi - (lo + hi) / 2\<bar> = (hi - lo) / 2" using assms(1) by (simp add: abs_if field_simps)
    then have "in_range_score lo hi hi = 80" using h by (simp add: in_range_score_def)
    then show "calculateParameterScore (Num hi) (Num lo, Num hi) = Num 80"
      using score_inside [OF assms(1), of hi] assms(1) by simp
  qed
  have far_lo: "\<bar>lo - (lo + hi) / 2\<bar> < \<bar>(lo - d) - (lo + hi) / 2\<bar>"
    using assms by (simp add: abs_if field_simps)
  have far_hi: "\<bar>hi - (lo + hi) / 2\<bar> < \<bar>(hi + d) - (lo + hi) / 2\<bar>"
    using assms by (simp add: abs_if field_simps)
  have near: "\<exists>e. 0 < e \<and> e < \<delta> \<and> e \<le> 1" if "0 < \<delta>" for \<delta> :: rat
  proof -
    have "0 < min (\<delta> / 2) 1 \<and> min (\<delta> / 2) 1 < \<delta> \<and> min (\<delta> / 2) 1 \<le> 1"
      using that by (simp add: min_def)
    then show ?thesis by blast
  qed
  have jump_lo: "\<exists>v s. \<bar>v - lo\<bar> < \<delta>
              \<and> calculateParameterScore (Num v) (Num lo, Num hi) = Num s \<and> 15 \<le> \<bar>s - 80\<bar>"
    if pos: "0 < \<delta>" for \<delta>
  proof -
    obtain e where e: "0 < e" "e < \<delta>" "e \<le> 1" using near [OF pos] by blast
    have "\<bar>(lo - e) - lo\<bar> < \<delta>" using e by simp
    moreover have "calculateParameterScore (Num (lo - e)) (Num lo, Num hi) = Num (100 - 5 * e)"
      using below [of e] e by simp
    moreover have "15 \<le> \<bar>(100 - 5 * e) - 80\<bar>" using e by simp
    ultimately show ?thesis by blast
  qed
  have jump_hi: "\<exists>v s. \<bar>v - hi\<bar> < \<delta>
              \<and> calculateParameterScore (Num v) (Num lo, Num hi) = Num s \<and> 15 \<le> \<bar>s - 80\<bar>"
    if pos: "0 < \<delta>" for \<delta>
  proof -
    obtain e where e: "0 < e" "e < \<delta>" "e \<le> 1" using near [OF pos] by blast
    have "\<bar>(hi + e) - hi\<bar> < \<delta>" using e by simp
    moreover have "calculateParameterScore (Num (hi + e)) (Num lo, Num hi) = Num (100 - 5 * e)"
      using above [of e] e by simp
    moreover have "15 \<le> \<bar>(100 - 5 * e) - 80\<bar>" using e by simp
    ultimately show ?thesis by blast
  qed
  have gap: "80 < 100 - 5 * d" using assms(3) by simp
  show ?thesis
    using below [OF assms(2,3)] above [OF assms(2,3)] lo80 hi80 gap far_lo far_hi jump_lo jump_hi
    by blast
qed

theorem score_jumps_outside_range_witness:
  "calculateParameterScore (Num 39) (Num 40, Num 70) = Num 95
   \<and> calculateParameterScore (Num 71) (Num 40, Num 70) = Num 95
   \<and> calculateParameterScore (Num 40) (Num 40, Num 70) = Num 80
   \<and> calculateParameterScore (Num 70) (Num 40, Num 70) = Num 80"
proof -
  have h1: "(40::rat) < 70" and h2: "(0::rat) < 1" and h3: "(1::rat) < 4" by simp_all
  from score_jumps_outside_range [OF h1 h2 h3] show ?thesis by simp
qed

text \<open>
  C8 as stated fails: there is no loading step and no configuration error. A table whose
  ranges are all the single point 5 is scored like any other; at the value 5 every
  parameter score is the quotient \<open>0 / 0\<close>, and the overall score is \<open>NaN\<close>.
\<close>

theorem degenerate_range_is_scored:
  "calculateParameterScore (Num 5) (Num 5, Num 5) = NaN
   \<and> calculateCropSuitability
        \<lparr>p_soil_moisture = Num 5, p_soil_temperature = Num 5,
         p_air_temperature = Num 5, p_air_humidity = Num 5,
         p_optimal = \<lparr>opt_soil_moisture = (Num 5, Num 5), opt_soil_temperature = (Num 5, Num 5),
                      opt_air_temperature = (Num 5, Num 5), opt_air_humidity = (Num 5, Num 5)\<rparr>\<rparr>
     = NaN"
  by (simp add: calculateCropSuitability_def calculateParameterScore_def js_ge_def js_sub_def
      signed_infinity_def Let_def)

text \<open>
  C8, amended. The scoring functions check nothing and raise nothing. The five tables
  written in the source all have \<open>min < max\<close>. For a degenerate range, with \<open>min > max\<close>
  the division is never reached and the score is the out-of-range score; with
  \<open>min = max\<close> it is reached only at the value \<open>min\<close> itself, where it is \<open>0 / 0\<close>
  and the score is \<open>NaN\<close>.
\<close>

theorem degenerate_range_behaviour:
  assumes "hi \<le> lo"
  shows "calculateParameterScore (Num v) (Num lo, Num hi)
           = (if v = lo \<and> lo = hi then NaN else Num (out_of_range_score lo hi v))
       \<and> list_all nondegenerate builtin_optimals"
proof -
  have builtin: "list_all nondegenerate builtin_optimals"
    by (simp add: builtin_optimals_def nondegenerate_def tomato_optimal_def lettuce_optimal_def
        pepper_optimal_def spinach_optimal_def carrot_optimal_def range_of_def)
  have "calculateParameterScore (Num v) (Num lo, Num hi)
           = (if v = lo \<and> lo = hi then NaN else Num (out_of_range_score lo hi v))"
  proof (cases "v = lo \<and> lo = hi")
    case True
    then show ?thesis
      by (simp add: calculateParameterScore_def js_ge_def js_sub_def signed_infinity_def Let_def)
  next
    case False
    then have "v < lo \<or> hi < v" using assms by auto
    then show ?thesis using False score_outside [of v lo hi] by simp
  qed
  then show ?thesis using builtin by simp
qed

theorem degenerate_range_behaviour_witness:
  "calculateParameterScore (Num 6) (Num 7, Num 5) = Num 95
   \<and> calculateParameterScore (Num 7) (Num 7, Num 7) = NaN"
proof -
  have h1: "(5::rat) \<le> 7" and h2: "(7::rat) \<le> 7" by simp_all
  from degenerate_range_behaviour [OF h1, of 6] degenerate_range_behaviour [OF h2, of 7]
  show ?thesis by (simp add: out_of_range_score_def)
qed

text \<open>
  C7. For every reading with finite values the returned list is in descending order of
  the suitability score. For every reading and every score, the recommendations of the
  returned list with that score are those of the five recommendations in the order the
  source pushes them (tomatoes, lettuce, peppers, spinach, carrots): nothing is lost or
  added, and equal scores keep their input order. The same holds of the sort on any
  list: for P1 and P2 with score 90 and P3 with score 70, the input order P3, P1, P2
  gives P1, P2, P3.
\<close>

theorem recommendations_sorted_stable:
  "sorted_wrt (\<lambda>a b. js_ge (suitability_score a) (suitability_score b))
     (generateCropRecommendations
        \<lparr>soil_moisture = Some m, soil_temperature = Some st,
         air_temperature = Some t, air_humidity = Some h, rainfall = rf\<rparr>)
   \<and> filter (\<lambda>r. suitability_score r = j) (generateCropRecommendations s)
       = filter (\<lambda>r. suitability_score r = j)
           [\<lparr>crop_type = ''Tomatoes'',
              suitability_score = calculateCropSuitability (params_of s tomato_optimal)\<rparr>,
            \<lparr>crop_type = ''Lettuce'',
              suitability_score = calculateCropSuitability (params_of s lettuce_optimal)\<rparr>,
            \<lparr>crop_type = ''Peppers'',
              suitability_score = calculateCropSuitability (params_of s pepper_optimal)\<rparr>,
            \<lparr>crop_type = ''Spinach'',
              suitability_score = calculateCropSuitability (params_of s spinach_optimal)\<rparr>,
            \<lparr>crop_type = ''Carrots'',
              suitability_score = calculateCropSuitability (params_of s carrot_optimal)\<rparr>]
   \<and> filter (\<lambda>r. suitability_score r = k) (Array_sort by_score_descending recs)
       = filter (\<lambda>r. suitability_score r = k) recs
   \<and> Array_sort by_score_descending
        [\<lparr>crop_type = ''P3'', suitability_score = Num 70\<rparr>,
         \<lparr>crop_type = ''P1'', suitability_score = Num 90\<rparr>,
         \<lparr>crop_type = ''P2'', suitability_score = Num 90\<rparr>]
       = [\<lparr>crop_type = ''P1'', suitability_score = Num 90\<rparr>,
          \<lparr>crop_type = ''P2'', suitability_score = Num 90\<rparr>,
          \<lparr>crop_type = ''P3'', suitability_score = Num 70\<rparr>]"
proof -
  let ?s = "\<lparr>soil_moisture = Some m, soil_temperature = Some st,
         air_temperature = Some t, air_humidity = Some h, rainfall = rf\<rparr>"
  let ?recs = "[\<lparr>crop_type = ''Tomatoes'',
                  suitability_score = calculateCropSuitability (params_of ?s tomato_optimal)\<rparr>,
                \<lparr>crop_type = ''Lettuce'',
                  suitability_score = calculateCropSuitability (params_of ?s lettuce_optimal)\<rparr>,
                \<lparr>crop_type = ''Peppers'',
                  suitability_score = calculateCropSuitability (params_of ?s pepper_optimal)\<rparr>,
                \<lparr>crop_type = ''Spinach'',
                  suitability_score = calculateCropSuitability (params_of ?s spinach_optimal)\<rparr>,
                \<lparr>crop_type = ''Carrots'',
                  suitability_score = calculateCropSuitability (params_of ?s carrot_optimal)\<rparr>]"
  have gen: "generateCropRecommendations ?s = Array_sort by_score_descending ?recs"
    by (simp add: generateCropRecommendations_def Let_def)
  have fin: "\<exists>q. calculateCropSuitability (params_of ?s opt) = Num q"
    if "opt \<in> set builtin_optimals" for opt
    using builtin_score_finite [OF that, of m st t h rf] by blast
  have "finite_scores ?recs"
    unfolding finite_scores_def
    using fin [of tomato_optimal] fin [of lettuce_optimal] fin [of pepper_optimal]
      fin [of spinach_optimal] fin [of carrot_optimal]
    by (simp add: builtin_optimals_def)
  then have sorted: "sorted_wrt (\<lambda>a b. js_ge (suitability_score a) (suitability_score b))
     (generateCropRecommendations ?s)"
    unfolding gen by (rule Array_sort_descending)
  have example: "Array_sort by_score_descending
        [\<lparr>crop_type = ''P3'', suitability_score = Num 70\<rparr>,
         \<lparr>crop_type = ''P1'', suitability_score = Num 90\<rparr>,
         \<lparr>crop_type = ''P2'', suitability_score = Num 90\<rparr>]
       = [\<lparr>crop_type = ''P1'', suitability_score = Num 90\<rparr>,
          \<lparr>crop_type = ''P2'', suitability_score = Num 90\<rparr>,
          \<lparr>crop_type = ''P3'', suitability_score = Num 70\<rparr>]"
    by (simp add: Array_sort_def by_score_descending_def js_sub_def js_gt_def)
  have returned: "filter (\<lambda>r. suitability_score r = j) (generateCropRecommendations s)
       = filter (\<lambda>r. suitability_score r = j)
           [\<lparr>crop_type = ''Tomatoes'',
              suitability_score = calculateCropSuitability (params_of s tomato_optimal)\<rparr>,
            \<lparr>crop_type = ''Lettuce'',
              suitability_score = calculateCropSuitability (params_of s lettuce_optimal)\<rparr>,
            \<lparr>crop_type = ''Peppers'',
              suitability_score = calculateCropSuitability (params_of s pepper_optimal)\<rparr>,
            \<lparr>crop_type = ''Spinach'',
              suitability_score = calculateCropSuitability (params_of s spinach_optimal)\<rparr>,
            \<lparr>crop_type = ''Carrots'',
              suitability_score = calculateCropSuitability (params_of s carrot_optimal)\<rparr>]"
    unfolding generateCropRecommendations_def Let_def by (rule filter_Array_sort)
  show ?thesis using sorted returned filter_Array_sort [of k recs] example by blast
qed

end
